theory Spec2Isabelle
  imports Main "HOL-Library.Word"
begin

section \<open>The Tokenizer class of include/tokenizers\_cpp.h\<close>

text \<open>
  The header declares one abstract class. Five of its methods are pure virtual
  (\<open>Encode\<close> and \<open>Decode\<close> with a flag, \<open>GetVocabSize\<close>, \<open>IdToToken\<close>,
  \<open>TokenToId\<close>); six have a body in the class: the one-argument overloads and the two
  batch loops.

  No method is \<open>const\<close> and any of them may throw, so a call on an instance is a
  function from the instance's state to a result and the state afterwards. The result is
  \<open>Inr v\<close> when the call returns \<open>v\<close> and \<open>Inl e\<close> when it leaves by the exception
  \<open>e\<close>. The state type \<open>'s\<close> and the exception type \<open>'e\<close> belong to the derived
  class and are parameters here.
\<close>

type_synonym int32_t = "32 word"

type_synonym ('s, 'e, 'a) call = "'s \<Rightarrow> ('e + 'a) \<times> 's"

text \<open>
  An instance is the table of what its class supplies: the five pure virtual methods,
  which every derived class must define, and the two two-argument batch methods, which a
  derived class may override (\<open>None\<close>: the body of \<open>Tokenizer\<close> is inherited). These
  two are the only overridable methods that the class itself calls.
\<close>

record ('s, 'e) Tokenizer =
  Encode :: "string \<Rightarrow> bool \<Rightarrow> ('s, 'e, int32_t list) call"
  Decode :: "int32_t list \<Rightarrow> bool \<Rightarrow> ('s, 'e, string) call"
  GetVocabSize :: "('s, 'e, nat) call"
  IdToToken :: "int32_t \<Rightarrow> ('s, 'e, string) call"
  TokenToId :: "string \<Rightarrow> ('s, 'e, int32_t) call"
  EncodeBatch_override :: "(string list \<Rightarrow> bool \<Rightarrow> ('s, 'e, int32_t list list) call) option"
  DecodeBatch_override :: "(int32_t list list \<Rightarrow> bool \<Rightarrow> ('s, 'e, string list) call) option"

subsection \<open>Encoding\<close>

text \<open>\<open>Encode(text)\<close>, line 38: \<open>return Encode(text, false);\<close>\<close>

definition Tokenizer_Encode1 :: "('s, 'e) Tokenizer \<Rightarrow> string \<Rightarrow> ('s, 'e, int32_t list) call" where
  "Tokenizer_Encode1 self text = Encode self text False"

text \<open>
  \<open>EncodeBatch(texts, add_special_tokens)\<close>, lines 46 to 55. The range-for loop runs
  over what is left of \<open>texts\<close> with the vector \<open>ret\<close> built so far; an exception of
  \<open>Encode\<close> leaves the loop and the method. \<open>ret.reserve\<close> changes no value, and
  running out of memory in \<open>push_back\<close> is not modelled.
\<close>

fun EncodeBatch_loop ::
  "('s, 'e) Tokenizer \<Rightarrow> string list \<Rightarrow> bool \<Rightarrow> int32_t list list \<Rightarrow> ('s, 'e, int32_t list list) call"
where
  "EncodeBatch_loop self [] add_special_tokens ret s = (Inr ret, s)"
| "EncodeBatch_loop self (text # texts) add_special_tokens ret s =
     (case Encode self text add_special_tokens s of
        (Inl e, s') \<Rightarrow> (Inl e, s')
      | (Inr ids, s') \<Rightarrow> EncodeBatch_loop self texts add_special_tokens (ret @ [ids]) s')"

definition Tokenizer_EncodeBatch ::
  "('s, 'e) Tokenizer \<Rightarrow> string list \<Rightarrow> bool \<Rightarrow> ('s, 'e, int32_t list list) call"
where
  "Tokenizer_EncodeBatch self texts add_special_tokens s =
     EncodeBatch_loop self texts add_special_tokens [] s"

text \<open>The virtual call \<open>EncodeBatch(texts, add_special_tokens)\<close> on an instance.\<close>

definition call_EncodeBatch ::
  "('s, 'e) Tokenizer \<Rightarrow> string list \<Rightarrow> bool \<Rightarrow> ('s, 'e, int32_t list list) call"
where
  "call_EncodeBatch self =
     (case EncodeBatch_override self of
        None \<Rightarrow> Tokenizer_EncodeBatch self
      | Some f \<Rightarrow> f)"

text \<open>\<open>EncodeBatch(texts)\<close>, lines 62 to 64: \<open>return EncodeBatch(texts, false);\<close>\<close>

definition Tokenizer_EncodeBatch1 ::
  "('s, 'e) Tokenizer \<Rightarrow> string list \<Rightarrow> ('s, 'e, int32_t list list) call"
where
  "Tokenizer_EncodeBatch1 self texts = call_EncodeBatch self texts False"

subsection \<open>Decoding\<close>

text \<open>\<open>Decode(ids)\<close>, line 79: \<open>return Decode(ids, false);\<close>\<close>

definition Tokenizer_Decode1 :: "('s, 'e) Tokenizer \<Rightarrow> int32_t list \<Rightarrow> ('s, 'e, string) call" where
  "Tokenizer_Decode1 self ids = Decode self ids False"

text \<open>\<open>DecodeBatch(ids, skip_special_tokens)\<close>, lines 87 to 96, the same loop over \<open>Decode\<close>.\<close>

fun DecodeBatch_loop ::
  "('s, 'e) Tokenizer \<Rightarrow> int32_t list list \<Rightarrow> bool \<Rightarrow> string list \<Rightarrow> ('s, 'e, string list) call"
where
  "DecodeBatch_loop self [] skip_special_tokens ret s = (Inr ret, s)"
| "DecodeBatch_loop self (id' # ids) skip_special_tokens ret s =
     (case Decode self id' skip_special_tokens s of
        (Inl e, s') \<Rightarrow> (Inl e, s')
      | (Inr text, s') \<Rightarrow> DecodeBatch_loop self ids skip_special_tokens (ret @ [text]) s')"

definition Tokenizer_DecodeBatch ::
  "('s, 'e) Tokenizer \<Rightarrow> int32_t list list \<Rightarrow> bool \<Rightarrow> ('s, 'e, string list) call"
where
  "Tokenizer_DecodeBatch self ids skip_special_tokens s =
     DecodeBatch_loop self ids skip_special_tokens [] s"

text \<open>The virtual call \<open>DecodeBatch(ids, skip_special_tokens)\<close> on an instance.\<close>

definition call_DecodeBatch ::
  "('s, 'e) Tokenizer \<Rightarrow> int32_t list list \<Rightarrow> bool \<Rightarrow> ('s, 'e, string list) call"
where
  "call_DecodeBatch self =
     (case DecodeBatch_override self of
        None \<Rightarrow> Tokenizer_DecodeBatch self
      | Some f \<Rightarrow> f)"

text \<open>\<open>DecodeBatch(ids)\<close>, lines 103 to 105: \<open>return DecodeBatch(ids, false);\<close>\<close>

definition Tokenizer_DecodeBatch1 ::
  "('s, 'e) Tokenizer \<Rightarrow> int32_t list list \<Rightarrow> ('s, 'e, string list) call"
where
  "Tokenizer_DecodeBatch1 self ids = call_DecodeBatch self ids False"

subsection \<open>Vocabulary used for stating properties\<close>

text \<open>
  The shape the two batch loops share: call \<open>f\<close> on each element in turn, push what it
  returns onto \<open>ret\<close>, leave at the first exception.
\<close>

fun batch_loop :: "('a \<Rightarrow> ('s, 'e, 'b) call) \<Rightarrow> 'a list \<Rightarrow> 'b list \<Rightarrow> ('s, 'e, 'b list) call" where
  "batch_loop f [] ret s = (Inr ret, s)"
| "batch_loop f (x # xs) ret s =
     (case f x s of
        (Inl e, s') \<Rightarrow> (Inl e, s')
      | (Inr y, s') \<Rightarrow> batch_loop f xs (ret @ [y]) s')"

text \<open>The state of the instance after \<open>f\<close> has been called on each element of a list in turn.\<close>

fun state_after :: "('a \<Rightarrow> ('s, 'e, 'b) call) \<Rightarrow> 'a list \<Rightarrow> 's \<Rightarrow> 's" where
  "state_after f [] s = s"
| "state_after f (x # xs) s = state_after f xs (snd (f x s))"

text \<open>The state in which the loop over \<open>xs\<close> calls \<open>f\<close> on the element at index \<open>i\<close>.\<close>

definition state_before :: "('a \<Rightarrow> ('s, 'e, 'b) call) \<Rightarrow> 'a list \<Rightarrow> nat \<Rightarrow> 's \<Rightarrow> 's" where
  "state_before f xs i s = state_after f (take i xs) s"

text \<open>
  Running one computation after another and appending the two returned lists; an
  exception of either is the exception of the whole, and the second does not run after an
  exception of the first.
\<close>

definition then_append :: "('s, 'e, 'a list) call \<Rightarrow> ('s, 'e, 'a list) call \<Rightarrow> ('s, 'e, 'a list) call" where
  "then_append m1 m2 s =
     (case m1 s of
        (Inl e, s1) \<Rightarrow> (Inl e, s1)
      | (Inr xs, s1) \<Rightarrow>
          (case m2 s1 of
             (Inl e, s2) \<Rightarrow> (Inl e, s2)
           | (Inr ys, s2) \<Rightarrow> (Inr (xs @ ys), s2)))"


subsection \<open>The vocabulary lookups of a conformant backend\<close>

text \<open>
  Modelled from the spec: the state of a backend instance as far as the lookups read it.
  The header only declares \<open>GetVocabSize\<close>, \<open>IdToToken\<close> and \<open>TokenToId\<close>; the
  classes that define them are in other files of the repository. The state is the loaded
  vocabulary: the number of addressable ids, the canonical string form of the ids that
  have one, and the id of each token string. The two maps need not be inverses of each
  other.
\<close>

record Vocabulary =
  vocab_size :: nat
  string_form :: "int32_t \<rightharpoonup> string"
  token_id :: "string \<rightharpoonup> int32_t"

text \<open>
  Modelled from the spec: \<open>GetVocabSize\<close> of a backend class, whose definition is not in
  the header. It returns the total number of addressable ids.
\<close>

definition Vocabulary_GetVocabSize :: "(Vocabulary, 'e, nat) call" where
  "Vocabulary_GetVocabSize v = (Inr (vocab_size v), v)"

text \<open>
  Modelled from the spec: \<open>IdToToken\<close> of a backend class, whose definition is not in the
  header. It returns the canonical string form of \<open>token_id\<close>, or an empty string if the
  id is out of range (not \<open>0 <= id < GetVocabSize()\<close>) or has no string form.
\<close>

definition Vocabulary_IdToToken :: "int32_t \<Rightarrow> (Vocabulary, 'e, string) call" where
  "Vocabulary_IdToToken token_id' v =
     (if 0 \<le> sint token_id' \<and> sint token_id' < int (vocab_size v)
      then (case string_form v token_id' of
              Some token \<Rightarrow> (Inr token, v)
            | None \<Rightarrow> (Inr [], v))
      else (Inr [], v))"

text \<open>
  Modelled from the spec: \<open>TokenToId\<close> of a backend class, whose definition is not in the
  header. It returns the id for an exact string match, or \<open>-1\<close> if the token is absent.
\<close>

definition Vocabulary_TokenToId :: "string \<Rightarrow> (Vocabulary, 'e, int32_t) call" where
  "Vocabulary_TokenToId token v =
     (case token_id v token of
        Some i \<Rightarrow> (Inr i, v)
      | None \<Rightarrow> (Inr (- 1), v))"

subsection \<open>A small derived class\<close>

text \<open>
  A derived class to run the inherited methods on. Its vocabulary is the one of the
  end-to-end scenario: \<open>hello\<close> is 10, \<open>world\<close> is 11, the markers \<open><s>\<close> and
  \<open></s>\<close> are 0 and 1, and there are 12 addressable ids. A text is one word of the
  vocabulary or empty; any other text makes \<open>Encode\<close> throw, and an id without a string
  form makes \<open>Decode\<close> throw. Every call applies \<open>tick\<close> to the state of the instance:
  with \<open>tick = id\<close> the instance never changes, with \<open>tick = Suc\<close> it counts the calls
  made on it.
\<close>

definition scenario_vocabulary :: Vocabulary where
  "scenario_vocabulary =
     \<lparr>vocab_size = 12,
      string_form = map_of [(10, ''hello''), (11, ''world''), (0, ''<s>''), (1, ''</s>'')],
      token_id = map_of [(''hello'', 10), (''world'', 11), (''<s>'', 0), (''</s>'', 1)]\<rparr>"

definition scenario_encode :: "string \<Rightarrow> bool \<Rightarrow> string + int32_t list" where
  "scenario_encode text add_special_tokens =
     (if text = [] then Inr (if add_special_tokens then [0, 1] else [])
      else if text = ''hello'' then Inr (if add_special_tokens then [0, 10, 1] else [10])
      else if text = ''world'' then Inr (if add_special_tokens then [0, 11, 1] else [11])
      else Inl ''unencodable text'')"

fun scenario_decode :: "int32_t list \<Rightarrow> bool \<Rightarrow> string + string" where
  "scenario_decode [] skip_special_tokens = Inr []"
| "scenario_decode (i # ids) skip_special_tokens =
     (case (if i = 10 then Inr ''hello''
            else if i = 11 then Inr ''world''
            else if i = 0 then Inr (if skip_special_tokens then [] else ''<s>'')
            else if i = 1 then Inr (if skip_special_tokens then [] else ''</s>'')
            else Inl ''id without string form'') of
        Inl e \<Rightarrow> Inl e
      | Inr piece \<Rightarrow>
          (case scenario_decode ids skip_special_tokens of
             Inl e \<Rightarrow> Inl e
           | Inr rest \<Rightarrow> Inr (piece @ rest)))"

definition scenario :: "('s \<Rightarrow> 's) \<Rightarrow> ('s, string) Tokenizer" where
  "scenario tick =
     \<lparr>Encode = (\<lambda>text add_special_tokens s. (scenario_encode text add_special_tokens, tick s)),
      Decode = (\<lambda>ids skip_special_tokens s. (scenario_decode ids skip_special_tokens, tick s)),
      GetVocabSize = (\<lambda>s. (fst (Vocabulary_GetVocabSize scenario_vocabulary), tick s)),
      IdToToken = (\<lambda>token_id' s. (fst (Vocabulary_IdToToken token_id' scenario_vocabulary), tick s)),
      TokenToId = (\<lambda>token s. (fst (Vocabulary_TokenToId token scenario_vocabulary), tick s)),
      EncodeBatch_override = None,
      DecodeBatch_override = None\<rparr>"




section \<open>Properties of the batch loops\<close>

subsection \<open>The two loops are one loop\<close>

lemma EncodeBatch_loop_batch:
  "EncodeBatch_loop self texts b ret s = batch_loop (\<lambda>t. Encode self t b) texts ret s"
  by (induction texts arbitrary: ret s) (auto split: prod.splits sum.splits)

lemma DecodeBatch_loop_batch:
  "DecodeBatch_loop self ids b ret s = batch_loop (\<lambda>i. Decode self i b) ids ret s"
  by (induction ids arbitrary: ret s) (auto split: prod.splits sum.splits)

lemma Tokenizer_EncodeBatch_batch:
  "Tokenizer_EncodeBatch self texts b s = batch_loop (\<lambda>t. Encode self t b) texts [] s"
  by (simp add: Tokenizer_EncodeBatch_def EncodeBatch_loop_batch)

lemma Tokenizer_DecodeBatch_batch:
  "Tokenizer_DecodeBatch self ids b s = batch_loop (\<lambda>i. Decode self i b) ids [] s"
  by (simp add: Tokenizer_DecodeBatch_def DecodeBatch_loop_batch)

subsection \<open>The loop\<close>

lemma batch_loop_ret:
  "batch_loop f xs ret s =
     (case batch_loop f xs [] s of
        (Inl e, s') \<Rightarrow> (Inl e, s')
      | (Inr R, s') \<Rightarrow> (Inr (ret @ R), s'))"
proof (induction xs arbitrary: ret s)
  case Nil
  show ?case by simp
next
  case (Cons x xs)
  show ?case
  proof (cases "f x s")
    case (Pair r s1)
    show ?thesis
    proof (cases r)
      case (Inl e)
      with Pair show ?thesis by simp
    next
      case (Inr y)
      have "batch_loop f (x # xs) ret s = batch_loop f xs (ret @ [y]) s1"
        using Pair Inr by simp
      moreover have "batch_loop f (x # xs) [] s = batch_loop f xs [y] s1"
        using Pair Inr by simp
      ultimately show ?thesis
        using Cons.IH [of "ret @ [y]" s1] Cons.IH [of "[y]" s1]
        by (simp split: prod.splits sum.splits)
    qed
  qed
qed

lemma batch_loop_append:
  "batch_loop f (xs @ ys) ret s =
     (case batch_loop f xs ret s of
        (Inl e, s') \<Rightarrow> (Inl e, s')
      | (Inr R, s') \<Rightarrow> batch_loop f ys R s')"
  by (induction xs arbitrary: ret s) (auto split: prod.splits sum.splits)

lemma batch_loop_then_append:
  "batch_loop f (xs @ ys) [] s = then_append (batch_loop f xs []) (batch_loop f ys []) s"
  unfolding then_append_def batch_loop_append [of f xs ys "[]" s]
  by (subst batch_loop_ret [of f ys]) (auto split: prod.splits sum.splits)


lemma batch_loop_stateless:
  "\<forall>x\<in>set xs. \<exists>y. f x s = (Inr y, s) \<Longrightarrow>
   \<exists>R. batch_loop f xs ret s = (Inr (ret @ R), s) \<and> length R = length xs \<and>
       (\<forall>i<length xs. f (xs ! i) s = (Inr (R ! i), s))"
proof (induction xs arbitrary: ret)
  case Nil
  show ?case by simp
next
  case (Cons x xs)
  from Cons.prems obtain y where y: "f x s = (Inr y, s)" by auto
  from Cons.prems have "\<forall>x\<in>set xs. \<exists>y. f x s = (Inr y, s)" by simp
  from Cons.IH [OF this, of "ret @ [y]"] obtain R where
    R: "batch_loop f xs (ret @ [y]) s = (Inr ((ret @ [y]) @ R), s)"
       "length R = length xs" "\<forall>i<length xs. f (xs ! i) s = (Inr (R ! i), s)"
    by blast
  have "batch_loop f (x # xs) ret s = (Inr (ret @ y # R), s)"
    using y R(1) by simp
  moreover have "length (y # R) = length (x # xs)"
    using R(2) by simp
  moreover have "\<forall>i<length (x # xs). f ((x # xs) ! i) s = (Inr ((y # R) ! i), s)"
    using y R(3) by (auto simp: nth_Cons split: nat.splits)
  ultimately show ?case by blast
qed

lemma state_before_Cons_Suc:
  "state_before f (x # xs) (Suc i) s = state_before f xs i (snd (f x s))"
  by (simp add: state_before_def)

lemma state_before_0: "state_before f xs 0 s = s"
  by (simp add: state_before_def)

lemma state_before_take:
  "j \<le> i \<Longrightarrow> state_before f (take i xs) j s = state_before f xs j s"
  by (simp add: state_before_def min_def)

lemma batch_loop_returns:
  "\<forall>i<length xs. \<not> isl (fst (f (xs ! i) (state_before f xs i s))) \<Longrightarrow>
   \<exists>R. batch_loop f xs ret s = (Inr (ret @ R), state_after f xs s) \<and> length R = length xs \<and>
       (\<forall>i<length xs. fst (f (xs ! i) (state_before f xs i s)) = Inr (R ! i))"
proof (induction xs arbitrary: ret s)
  case Nil
  show ?case by simp
next
  case (Cons x xs)
  from Cons.prems [rule_format, of 0] have "\<not> isl (fst (f x s))"
    by (simp add: state_before_0)
  then obtain y s1 where y: "f x s = (Inr y, s1)"
    by (cases "f x s"; cases "fst (f x s)") auto
  have "\<forall>i<length xs. \<not> isl (fst (f (xs ! i) (state_before f xs i s1)))"
  proof (intro allI impI)
    fix i assume "i < length xs"
    with Cons.prems [rule_format, of "Suc i"] y
    show "\<not> isl (fst (f (xs ! i) (state_before f xs i s1)))"
      by (simp add: state_before_Cons_Suc)
  qed
  from Cons.IH [OF this, of "ret @ [y]"] obtain R where
    R: "batch_loop f xs (ret @ [y]) s1 = (Inr ((ret @ [y]) @ R), state_after f xs s1)"
       "length R = length xs"
       "\<forall>i<length xs. fst (f (xs ! i) (state_before f xs i s1)) = Inr (R ! i)"
    by blast
  have "batch_loop f (x # xs) ret s = (Inr (ret @ y # R), state_after f (x # xs) s)"
    using y R(1) by simp
  moreover have "length (y # R) = length (x # xs)"
    using R(2) by simp
  moreover have "\<forall>i<length (x # xs).
      fst (f ((x # xs) ! i) (state_before f (x # xs) i s)) = Inr ((y # R) ! i)"
    using y R(3)
    by (auto simp: nth_Cons state_before_0 state_before_Cons_Suc split: nat.splits)
  ultimately show ?case by blast
qed

lemma batch_loop_faults:
  assumes i: "i < length xs"
    and before: "\<forall>j<i. \<not> isl (fst (f (xs ! j) (state_before f xs j s)))"
    and at: "f (xs ! i) (state_before f xs i s) = (Inl e, s')"
  shows "batch_loop f (take i xs @ xs ! i # post) ret s = (Inl e, s')"
proof -
  have "\<forall>j<length (take i xs).
          \<not> isl (fst (f (take i xs ! j) (state_before f (take i xs) j s)))"
    using i before by (simp add: state_before_take)
  from batch_loop_returns [OF this, of ret] obtain R where
    "batch_loop f (take i xs) ret s = (Inr (ret @ R), state_after f (take i xs) s)"
    by blast
  moreover have "f (xs ! i) (state_after f (take i xs) s) = (Inl e, s')"
    using at by (simp add: state_before_def)
  ultimately show ?thesis
    by (simp add: batch_loop_append)
qed

lemma batch_loop_faults_whole:
  assumes i: "i < length xs"
    and before: "\<forall>j<i. \<not> isl (fst (f (xs ! j) (state_before f xs j s)))"
    and at: "f (xs ! i) (state_before f xs i s) = (Inl e, s')"
  shows "batch_loop f xs ret s = (Inl e, s')"
    and "batch_loop f (take (Suc i) xs @ rest) ret s = (Inl e, s')"
proof -
  have "xs = take i xs @ xs ! i # drop (Suc i) xs"
    using i by (simp add: id_take_nth_drop [symmetric])
  with batch_loop_faults [OF i before at, of "drop (Suc i) xs" ret]
  show "batch_loop f xs ret s = (Inl e, s')" by simp
  have "take (Suc i) xs @ rest = take i xs @ xs ! i # rest"
    using i by (simp add: take_Suc_conv_app_nth)
  with batch_loop_faults [OF i before at, of rest ret]
  show "batch_loop f (take (Suc i) xs @ rest) ret s = (Inl e, s')" by simp
qed

subsection \<open>Invoking twice\<close>



section \<open>The claims\<close>

text \<open>
  C1. On an instance whose \<open>Encode\<close> returns on every text of \<open>T\<close> and leaves the
  instance as it was, the inherited \<open>EncodeBatch(T, b)\<close> returns a list of the length of
  \<open>T\<close> whose element at each index \<open>i\<close> is what \<open>Encode(T[i], b)\<close> returns.
\<close>

theorem EncodeBatch_elementwise:
  assumes "\<forall>t\<in>set T. \<exists>ids. Encode self t b s = (Inr ids, s)"
  shows "\<exists>R. Tokenizer_EncodeBatch self T b s = (Inr R, s) \<and> length R = length T \<and>
             (\<forall>i<length T. Encode self (T ! i) b s = (Inr (R ! i), s))"
  using batch_loop_stateless [of T "\<lambda>t. Encode self t b" s "[]"] assms
  by (simp add: Tokenizer_EncodeBatch_batch)

theorem EncodeBatch_elementwise_witness:
  "Encode (scenario id) ''hello'' False (0::nat) = (Inr [10], 0) \<and>
   Encode (scenario id) [] False (0::nat) = (Inr [], 0) \<and>
   Encode (scenario id) ''world'' False (0::nat) = (Inr [11], 0) \<and>
   (\<exists>R. Tokenizer_EncodeBatch (scenario id) [''hello'', [], ''world''] False (0::nat) = (Inr R, 0) \<and>
        length R = 3 \<and> R ! 0 = [10] \<and> R ! 1 = [] \<and> R ! 2 = [11])"
proof -
  let ?T = "[''hello'', [], ''world'']"
  have calls: "Encode (scenario id) ''hello'' False (0::nat) = (Inr [10], 0)"
    "Encode (scenario id) [] False (0::nat) = (Inr [], 0)"
    "Encode (scenario id) ''world'' False (0::nat) = (Inr [11], 0)"
    by (simp_all add: scenario_def scenario_encode_def)
  then have "\<forall>t\<in>set ?T. \<exists>ids. Encode (scenario id) t False (0::nat) = (Inr ids, 0)"
    by simp
  from EncodeBatch_elementwise [OF this] obtain R where
    R: "Tokenizer_EncodeBatch (scenario id) ?T False (0::nat) = (Inr R, 0)" "length R = length ?T"
    and nth: "\<forall>i<length ?T. Encode (scenario id) (?T ! i) False (0::nat) = (Inr (R ! i), 0)"
    by blast
  from nth [rule_format, of 0] nth [rule_format, of 1] nth [rule_format, of 2] calls
  have "R ! 0 = [10] \<and> R ! 1 = [] \<and> R ! 2 = [11]"
    by simp
  with R calls show ?thesis by simp
qed

text \<open>
  C2. On an instance whose \<open>Decode\<close> returns on every id sequence of \<open>I\<close> and leaves
  the instance as it was, the inherited \<open>DecodeBatch(I, b)\<close> returns a list of the length
  of \<open>I\<close> whose element at each index \<open>i\<close> is what \<open>Decode(I[i], b)\<close> returns.
\<close>

theorem DecodeBatch_elementwise:
  assumes "\<forall>ids\<in>set I. \<exists>text. Decode self ids b s = (Inr text, s)"
  shows "\<exists>R. Tokenizer_DecodeBatch self I b s = (Inr R, s) \<and> length R = length I \<and>
             (\<forall>i<length I. Decode self (I ! i) b s = (Inr (R ! i), s))"
  using batch_loop_stateless [of I "\<lambda>ids. Decode self ids b" s "[]"] assms
  by (simp add: Tokenizer_DecodeBatch_batch)

theorem DecodeBatch_elementwise_witness:
  "Decode (scenario id) [0, 10, 11, 1] True (0::nat) = (Inr ''helloworld'', 0) \<and>
   Decode (scenario id) [] True (0::nat) = (Inr [], 0) \<and>
   Decode (scenario id) [11] True (0::nat) = (Inr ''world'', 0) \<and>
   (\<exists>R. Tokenizer_DecodeBatch (scenario id) [[0, 10, 11, 1], [], [11]] True (0::nat) = (Inr R, 0) \<and>
        length R = 3 \<and> R ! 0 = ''helloworld'' \<and> R ! 1 = [] \<and> R ! 2 = ''world'')"
proof -
  let ?I = "[[0, 10, 11, 1], [], [11::int32_t]]"
  have calls: "Decode (scenario id) [0, 10, 11, 1] True (0::nat) = (Inr ''helloworld'', 0)"
    "Decode (scenario id) [] True (0::nat) = (Inr [], 0)"
    "Decode (scenario id) [11] True (0::nat) = (Inr ''world'', 0)"
    by (simp_all add: scenario_def)
  then have "\<forall>ids\<in>set ?I. \<exists>text. Decode (scenario id) ids True (0::nat) = (Inr text, 0)"
    by simp
  from DecodeBatch_elementwise [OF this] obtain R where
    R: "Tokenizer_DecodeBatch (scenario id) ?I True (0::nat) = (Inr R, 0)" "length R = length ?I"
    and nth: "\<forall>i<length ?I. Decode (scenario id) (?I ! i) True (0::nat) = (Inr (R ! i), 0)"
    by blast
  from nth [rule_format, of 0] nth [rule_format, of 1] nth [rule_format, of 2] calls
  have "R ! 0 = ''helloworld'' \<and> R ! 1 = [] \<and> R ! 2 = ''world''"
    by simp
  with R calls show ?thesis by simp
qed

text \<open>
  C3. The one-argument \<open>Encode(t)\<close> is \<open>Encode(t, false)\<close> and the one-argument
  \<open>Decode(ids)\<close> is \<open>Decode(ids, false)\<close>: the same result, the same exception and the
  same effect on the instance, for every text and every id sequence.
\<close>

theorem one_argument_forms:
  "Tokenizer_Encode1 self t = Encode self t False \<and>
   Tokenizer_Decode1 self ids = Decode self ids False"
  by (simp add: Tokenizer_Encode1_def Tokenizer_Decode1_def)

text \<open>
  C4. The one-argument \<open>EncodeBatch(T)\<close> is the call \<open>EncodeBatch(T, false)\<close> on the same
  instance, and the one-argument \<open>DecodeBatch(I)\<close> is the call \<open>DecodeBatch(I, false)\<close>,
  whether the instance inherits the two-argument batch method or overrides it.
\<close>

theorem one_argument_batch_forms:
  "Tokenizer_EncodeBatch1 self T = call_EncodeBatch self T False \<and>
   Tokenizer_DecodeBatch1 self I = call_DecodeBatch self I False"
  by (simp add: Tokenizer_EncodeBatch1_def Tokenizer_DecodeBatch1_def)

text \<open>
  C5. When every call the loop makes returns, the inherited batch methods return a list
  of the length of the input, and the element at each index \<open>i\<close> is what the call on the
  input's element at index \<open>i\<close> returned: nothing is dropped, duplicated or reordered, an
  empty result included.
\<close>

theorem batch_order_and_cardinality:
  "((\<forall>i<length T. \<not> isl (fst (Encode self (T ! i) b
                              (state_before (\<lambda>t. Encode self t b) T i s)))) \<longrightarrow>
    (\<exists>R s'. Tokenizer_EncodeBatch self T b s = (Inr R, s') \<and> length R = length T \<and>
            (\<forall>i<length T. fst (Encode self (T ! i) b
                                 (state_before (\<lambda>t. Encode self t b) T i s)) = Inr (R ! i)))) \<and>
   ((\<forall>i<length I. \<not> isl (fst (Decode self (I ! i) b'
                              (state_before (\<lambda>ids. Decode self ids b') I i s)))) \<longrightarrow>
    (\<exists>R s'. Tokenizer_DecodeBatch self I b' s = (Inr R, s') \<and> length R = length I \<and>
            (\<forall>i<length I. fst (Decode self (I ! i) b'
                                 (state_before (\<lambda>ids. Decode self ids b') I i s)) = Inr (R ! i))))"
proof (intro conjI impI)
  assume "\<forall>i<length T. \<not> isl (fst (Encode self (T ! i) b
                              (state_before (\<lambda>t. Encode self t b) T i s)))"
  from batch_loop_returns [of T "\<lambda>t. Encode self t b" s "[]", OF this]
  show "\<exists>R s'. Tokenizer_EncodeBatch self T b s = (Inr R, s') \<and> length R = length T \<and>
            (\<forall>i<length T. fst (Encode self (T ! i) b
                                 (state_before (\<lambda>t. Encode self t b) T i s)) = Inr (R ! i))"
    by (auto simp: Tokenizer_EncodeBatch_batch)
next
  assume "\<forall>i<length I. \<not> isl (fst (Decode self (I ! i) b'
                              (state_before (\<lambda>ids. Decode self ids b') I i s)))"
  from batch_loop_returns [of I "\<lambda>ids. Decode self ids b'" s "[]", OF this]
  show "\<exists>R s'. Tokenizer_DecodeBatch self I b' s = (Inr R, s') \<and> length R = length I \<and>
            (\<forall>i<length I. fst (Decode self (I ! i) b'
                                 (state_before (\<lambda>ids. Decode self ids b') I i s)) = Inr (R ! i))"
    by (auto simp: Tokenizer_DecodeBatch_batch)
qed

theorem batch_order_and_cardinality_witness:
  "Encode (scenario Suc) ''hello'' False (0::nat) = (Inr [10], 1) \<and>
   Encode (scenario Suc) [] False (1::nat) = (Inr [], 2) \<and>
   Encode (scenario Suc) ''world'' False (2::nat) = (Inr [11], 3) \<and>
   (\<exists>R s'. Tokenizer_EncodeBatch (scenario Suc) [''hello'', [], ''world''] False (0::nat) = (Inr R, s') \<and>
        length R = 3 \<and> R ! 0 = [10] \<and> R ! 1 = [] \<and> R ! 2 = [11]) \<and>
   Decode (scenario Suc) [0, 10, 11, 1] False (0::nat) = (Inr ''<s>helloworld</s>'', 1) \<and>
   Decode (scenario Suc) [] False (1::nat) = (Inr [], 2) \<and>
   Decode (scenario Suc) [11] False (2::nat) = (Inr ''world'', 3) \<and>
   (\<exists>R s'. Tokenizer_DecodeBatch (scenario Suc) [[0, 10, 11, 1], [], [11]] False (0::nat) = (Inr R, s') \<and>
        length R = 3 \<and> R ! 0 = ''<s>helloworld</s>'' \<and> R ! 1 = [] \<and> R ! 2 = ''world'')"
proof -
  let ?T = "[''hello'', [], ''world'']"
  let ?I = "[[0, 10, 11, 1], [], [11::int32_t]]"
  let ?enc = "\<lambda>i. fst (Encode (scenario Suc) (?T ! i) False
                  (state_before (\<lambda>t. Encode (scenario Suc) t False) ?T i (0::nat)))"
  let ?dec = "\<lambda>i. fst (Decode (scenario Suc) (?I ! i) False
                  (state_before (\<lambda>ids. Decode (scenario Suc) ids False) ?I i (0::nat)))"
  have calls: "Encode (scenario Suc) ''hello'' False (0::nat) = (Inr [10], 1)"
    "Encode (scenario Suc) [] False (1::nat) = (Inr [], 2)"
    "Encode (scenario Suc) ''world'' False (2::nat) = (Inr [11], 3)"
    "Decode (scenario Suc) [0, 10, 11, 1] False (0::nat) = (Inr ''<s>helloworld</s>'', 1)"
    "Decode (scenario Suc) [] False (1::nat) = (Inr [], 2)"
    "Decode (scenario Suc) [11] False (2::nat) = (Inr ''world'', 3)"
    by (simp_all add: scenario_def scenario_encode_def)
  have enc: "?enc 0 = Inr [10]" "?enc 1 = Inr []" "?enc 2 = Inr [11]"
    by (simp_all add: state_before_def scenario_def scenario_encode_def)
  have dec: "?dec 0 = Inr ''<s>helloworld</s>''" "?dec 1 = Inr []" "?dec 2 = Inr ''world''"
    by (simp_all add: state_before_def scenario_def)
  have enc_ok: "\<forall>i<length ?T. \<not> isl (?enc i)"
    by (simp add: All_less_Suc state_before_def scenario_def scenario_encode_def)
  have dec_ok: "\<forall>i<length ?I. \<not> isl (?dec i)"
    by (simp add: All_less_Suc state_before_def scenario_def)
  note inst = batch_order_and_cardinality [of ?T "scenario Suc" False 0 ?I False]
  from inst enc_ok obtain R s' where
    R: "Tokenizer_EncodeBatch (scenario Suc) ?T False (0::nat) = (Inr R, s')" "length R = length ?T"
    and nthR: "\<forall>i<length ?T. ?enc i = Inr (R ! i)"
    by blast
  from inst dec_ok obtain Q q' where
    Q: "Tokenizer_DecodeBatch (scenario Suc) ?I False (0::nat) = (Inr Q, q')" "length Q = length ?I"
    and nthQ: "\<forall>i<length ?I. ?dec i = Inr (Q ! i)"
    by blast
  from nthR [rule_format, of 0] nthR [rule_format, of 1] nthR [rule_format, of 2] enc
  have "R ! 0 = [10] \<and> R ! 1 = [] \<and> R ! 2 = [11]"
    by simp
  moreover
  from nthQ [rule_format, of 0] nthQ [rule_format, of 1] nthQ [rule_format, of 2] dec
  have "Q ! 0 = ''<s>helloworld</s>'' \<and> Q ! 1 = [] \<and> Q ! 2 = ''world''"
    by simp
  ultimately show ?thesis
    using R Q calls by simp
qed

text \<open>
  C7. If the calls the inherited loop makes on the elements before index \<open>i\<close> return and
  the call on the element at index \<open>i\<close> throws, then \<open>EncodeBatch\<close> leaves by that
  exception and returns no list, and the instance is left in the state in which the throwing
  call left it: no element after index \<open>i\<close> is processed, so whatever follows the element
  at index \<open>i\<close> in the input makes no difference. The same holds for \<open>DecodeBatch\<close>.
\<close>

theorem batch_aborts_at_first_fault:
  "(i < length T \<and>
    (\<forall>j<i. \<not> isl (fst (Encode self (T ! j) b (state_before (\<lambda>t. Encode self t b) T j s)))) \<and>
    Encode self (T ! i) b (state_before (\<lambda>t. Encode self t b) T i s) = (Inl e, s') \<longrightarrow>
    Tokenizer_EncodeBatch self T b s = (Inl e, s') \<and>
    (\<forall>rest. Tokenizer_EncodeBatch self (take (Suc i) T @ rest) b s = (Inl e, s'))) \<and>
   (k < length I \<and>
    (\<forall>j<k. \<not> isl (fst (Decode self (I ! j) b' (state_before (\<lambda>ids. Decode self ids b') I j s)))) \<and>
    Decode self (I ! k) b' (state_before (\<lambda>ids. Decode self ids b') I k s) = (Inl e', s'') \<longrightarrow>
    Tokenizer_DecodeBatch self I b' s = (Inl e', s'') \<and>
    (\<forall>rest. Tokenizer_DecodeBatch self (take (Suc k) I @ rest) b' s = (Inl e', s'')))"
proof (intro conjI impI allI)
  assume h: "i < length T \<and>
    (\<forall>j<i. \<not> isl (fst (Encode self (T ! j) b (state_before (\<lambda>t. Encode self t b) T j s)))) \<and>
    Encode self (T ! i) b (state_before (\<lambda>t. Encode self t b) T i s) = (Inl e, s')"
  then have i: "i < length T"
    and before: "\<forall>j<i. \<not> isl (fst (Encode self (T ! j) b
                                    (state_before (\<lambda>t. Encode self t b) T j s)))"
    and at: "Encode self (T ! i) b (state_before (\<lambda>t. Encode self t b) T i s) = (Inl e, s')"
    by simp_all
  show "Tokenizer_EncodeBatch self T b s = (Inl e, s')"
    using batch_loop_faults_whole(1) [of i T "\<lambda>t. Encode self t b", OF i before at]
    by (simp add: Tokenizer_EncodeBatch_batch)
  show "Tokenizer_EncodeBatch self (take (Suc i) T @ rest) b s = (Inl e, s')" for rest
    using batch_loop_faults_whole(2) [of i T "\<lambda>t. Encode self t b", OF i before at]
    by (simp add: Tokenizer_EncodeBatch_batch)
next
  assume h: "k < length I \<and>
    (\<forall>j<k. \<not> isl (fst (Decode self (I ! j) b' (state_before (\<lambda>ids. Decode self ids b') I j s)))) \<and>
    Decode self (I ! k) b' (state_before (\<lambda>ids. Decode self ids b') I k s) = (Inl e', s'')"
  then have k: "k < length I"
    and before: "\<forall>j<k. \<not> isl (fst (Decode self (I ! j) b'
                                    (state_before (\<lambda>ids. Decode self ids b') I j s)))"
    and at: "Decode self (I ! k) b' (state_before (\<lambda>ids. Decode self ids b') I k s) = (Inl e', s'')"
    by simp_all
  show "Tokenizer_DecodeBatch self I b' s = (Inl e', s'')"
    using batch_loop_faults_whole(1) [of k I "\<lambda>ids. Decode self ids b'", OF k before at]
    by (simp add: Tokenizer_DecodeBatch_batch)
  show "Tokenizer_DecodeBatch self (take (Suc k) I @ rest) b' s = (Inl e', s'')" for rest
    using batch_loop_faults_whole(2) [of k I "\<lambda>ids. Decode self ids b'", OF k before at]
    by (simp add: Tokenizer_DecodeBatch_batch)
qed

theorem batch_aborts_at_first_fault_witness:
  "Encode (scenario Suc) ''hello'' False (0::nat) = (Inr [10], 1) \<and>
   Encode (scenario Suc) ''?'' False (1::nat) = (Inl ''unencodable text'', 2) \<and>
   Tokenizer_EncodeBatch (scenario Suc) [''hello'', ''?'', ''world''] False (0::nat)
     = (Inl ''unencodable text'', 2) \<and>
   Decode (scenario Suc) [10] False (0::nat) = (Inr ''hello'', 1) \<and>
   Decode (scenario Suc) [5] False (1::nat) = (Inl ''id without string form'', 2) \<and>
   Tokenizer_DecodeBatch (scenario Suc) [[10], [5], [11]] False (0::nat)
     = (Inl ''id without string form'', 2)"
proof -
  let ?T = "[''hello'', ''?'', ''world'']"
  let ?I = "[[10], [5], [11::int32_t]]"
  have calls: "Encode (scenario Suc) ''hello'' False (0::nat) = (Inr [10], 1)"
    "Encode (scenario Suc) ''?'' False (1::nat) = (Inl ''unencodable text'', 2)"
    "Decode (scenario Suc) [10] False (0::nat) = (Inr ''hello'', 1)"
    "Decode (scenario Suc) [5] False (1::nat) = (Inl ''id without string form'', 2)"
    by (simp_all add: scenario_def scenario_encode_def)
  have enc: "1 < length ?T \<and>
      (\<forall>j<1. \<not> isl (fst (Encode (scenario Suc) (?T ! j) False
                (state_before (\<lambda>t. Encode (scenario Suc) t False) ?T j (0::nat))))) \<and>
      Encode (scenario Suc) (?T ! 1) False
        (state_before (\<lambda>t. Encode (scenario Suc) t False) ?T 1 (0::nat))
        = (Inl ''unencodable text'', 2)"
    by (simp add: state_before_def scenario_def scenario_encode_def)
  have dec: "1 < length ?I \<and>
      (\<forall>j<1. \<not> isl (fst (Decode (scenario Suc) (?I ! j) False
                (state_before (\<lambda>ids. Decode (scenario Suc) ids False) ?I j (0::nat))))) \<and>
      Decode (scenario Suc) (?I ! 1) False
        (state_before (\<lambda>ids. Decode (scenario Suc) ids False) ?I 1 (0::nat))
        = (Inl ''id without string form'', 2)"
    by (simp add: state_before_def scenario_def)
  note inst = batch_aborts_at_first_fault [of 1 ?T "scenario Suc" False 0 "''unencodable text''" 2
      1 ?I False "''id without string form''" 2]
  from inst enc have "Tokenizer_EncodeBatch (scenario Suc) ?T False (0::nat)
     = (Inl ''unencodable text'', 2)"
    by blast
  moreover from inst dec have "Tokenizer_DecodeBatch (scenario Suc) ?I False (0::nat)
     = (Inl ''id without string form'', 2)"
    by blast
  ultimately show ?thesis
    using calls by simp
qed

text \<open>
  C8. On a conformant instance, \<open>TokenToId\<close> of a string that is absent from the
  vocabulary returns the 32-bit value that reads \<open>-1\<close> as a signed integer, and
  \<open>IdToToken\<close> of an id that is negative, not below the vocabulary size, or without a
  string form returns the empty string. Both calls return (neither throws) and leave the
  instance as it was.
\<close>

theorem lookup_miss_sentinels:
  "(token_id v token = None \<longrightarrow>
      (\<exists>r. Vocabulary_TokenToId token v = (Inr r, v) \<and> sint r = - 1)) \<and>
   (sint i < 0 \<or> int (vocab_size v) \<le> sint i \<or> string_form v i = None \<longrightarrow>
      Vocabulary_IdToToken i v = (Inr [], v))"
  by (auto simp: Vocabulary_TokenToId_def Vocabulary_IdToToken_def)

theorem lookup_miss_sentinels_witness:
  "token_id scenario_vocabulary ''hullo'' = None \<and>
   (Vocabulary_TokenToId ''hullo'' scenario_vocabulary :: (string + int32_t) \<times> Vocabulary)
     = (Inr (- 1), scenario_vocabulary) \<and>
   int (vocab_size scenario_vocabulary) \<le> sint (12 :: int32_t) \<and>
   (Vocabulary_IdToToken 12 scenario_vocabulary :: (string + string) \<times> Vocabulary)
     = (Inr [], scenario_vocabulary) \<and>
   sint (- 1 :: int32_t) < 0 \<and>
   (Vocabulary_IdToToken (- 1) scenario_vocabulary :: (string + string) \<times> Vocabulary)
     = (Inr [], scenario_vocabulary) \<and>
   string_form scenario_vocabulary 5 = None \<and>
   (Vocabulary_IdToToken 5 scenario_vocabulary :: (string + string) \<times> Vocabulary)
     = (Inr [], scenario_vocabulary)"
proof -
  have miss: "token_id scenario_vocabulary ''hullo'' = None"
    and above: "int (vocab_size scenario_vocabulary) \<le> sint (12 :: int32_t)"
    and below: "sint (- 1 :: int32_t) < 0"
    and hole: "string_form scenario_vocabulary 5 = None"
    by (simp_all add: scenario_vocabulary_def)
  from miss lookup_miss_sentinels [of scenario_vocabulary "''hullo''"]
  obtain r :: int32_t where
    "(Vocabulary_TokenToId ''hullo'' scenario_vocabulary :: (string + int32_t) \<times> Vocabulary)
       = (Inr r, scenario_vocabulary)"
    by blast
  then have "(Vocabulary_TokenToId ''hullo'' scenario_vocabulary :: (string + int32_t) \<times> Vocabulary)
       = (Inr (- 1), scenario_vocabulary)"
    using miss by (simp add: Vocabulary_TokenToId_def)
  moreover from above lookup_miss_sentinels [of scenario_vocabulary _ 12]
  have "(Vocabulary_IdToToken 12 scenario_vocabulary :: (string + string) \<times> Vocabulary)
     = (Inr [], scenario_vocabulary)"
    by blast
  moreover from below lookup_miss_sentinels [of scenario_vocabulary _ "- 1"]
  have "(Vocabulary_IdToToken (- 1) scenario_vocabulary :: (string + string) \<times> Vocabulary)
     = (Inr [], scenario_vocabulary)"
    by blast
  moreover from hole lookup_miss_sentinels [of scenario_vocabulary _ 5]
  have "(Vocabulary_IdToToken 5 scenario_vocabulary :: (string + string) \<times> Vocabulary)
     = (Inr [], scenario_vocabulary)"
    by blast
  ultimately show ?thesis
    using miss above below hole by simp
qed




text \<open>
  C10. The inherited batch methods distribute over concatenation of the input list: the
  batch on \<open>T1 @ T2\<close> is the batch on \<open>T1\<close> followed by the batch on \<open>T2\<close>, with the
  two returned lists appended; the same holds for \<open>DecodeBatch\<close>. On the empty input list
  both return the empty list.
\<close>

theorem batch_concatenation:
  "Tokenizer_EncodeBatch self (T1 @ T2) b =
     then_append (Tokenizer_EncodeBatch self T1 b) (Tokenizer_EncodeBatch self T2 b) \<and>
   Tokenizer_DecodeBatch self (I1 @ I2) b' =
     then_append (Tokenizer_DecodeBatch self I1 b') (Tokenizer_DecodeBatch self I2 b') \<and>
   Tokenizer_EncodeBatch self [] b s = (Inr [], s) \<and>
   Tokenizer_DecodeBatch self [] b' s = (Inr [], s)"
proof (intro conjI)
  have enc: "Tokenizer_EncodeBatch self T b = batch_loop (\<lambda>t. Encode self t b) T []" for T
    by (rule ext) (rule Tokenizer_EncodeBatch_batch)
  have dec: "Tokenizer_DecodeBatch self I b' = batch_loop (\<lambda>i. Decode self i b') I []" for I
    by (rule ext) (rule Tokenizer_DecodeBatch_batch)
  show "Tokenizer_EncodeBatch self (T1 @ T2) b =
     then_append (Tokenizer_EncodeBatch self T1 b) (Tokenizer_EncodeBatch self T2 b)"
    unfolding enc by (rule ext) (rule batch_loop_then_append)
  show "Tokenizer_DecodeBatch self (I1 @ I2) b' =
     then_append (Tokenizer_DecodeBatch self I1 b') (Tokenizer_DecodeBatch self I2 b')"
    unfolding dec by (rule ext) (rule batch_loop_then_append)
  show "Tokenizer_EncodeBatch self [] b s = (Inr [], s)"
    by (simp add: Tokenizer_EncodeBatch_def)
  show "Tokenizer_DecodeBatch self [] b' s = (Inr [], s)"
    by (simp add: Tokenizer_DecodeBatch_def)
qed

end
